theory Spec2Isabelle
  imports Main
begin

section \<open>Strings as the JavaScript code uses them\<close>

text \<open>
  Text is a list of characters, a character being a code unit below 256. \<open>NL\<close> is
  the line feed the relay and the consumer split on. The string operations they use
  are \<^verbatim>\<open>split('\n')\<close>, \<^verbatim>\<open>startsWith\<close>, \<^verbatim>\<open>slice(6)\<close> (which is \<open>drop 6\<close>)
  and \<^verbatim>\<open>trim()\<close>.
\<close>

abbreviation NL :: char where
  "NL \<equiv> CHR 0x0A"

text \<open>\<^verbatim>\<open>s.split('\n')\<close>: never empty; the last element is the text after the last line feed.\<close>

fun split_lines :: "string \<Rightarrow> string list" where
  "split_lines [] = [] # []"
| "split_lines (c # cs) =
     (if c = NL then [] # split_lines cs
      else (case split_lines cs of
              [] \<Rightarrow> [c] # []
            | l # ls \<Rightarrow> (c # l) # ls))"

definition startsWith :: "string \<Rightarrow> string \<Rightarrow> bool" where
  "startsWith s p = (take (length p) s = p)"

text \<open>White space removed by \<^verbatim>\<open>trim()\<close>, within the one-byte characters of the model.\<close>

definition is_space :: "char \<Rightarrow> bool" where
  "is_space c = (c \<in> set [CHR 0x09, CHR 0x0A, CHR 0x0B, CHR 0x0C, CHR 0x0D, CHR 0x20, CHR 0xA0])"

definition trim :: "string \<Rightarrow> string" where
  "trim s = rev (dropWhile is_space (rev (dropWhile is_space s)))"

text \<open>
  One turn of either read loop on the reassembly buffer:
  \<^verbatim>\<open>buffer += chunk; lines = buffer.split('\n'); buffer = lines.pop() || ''\<close>.
  The result is the complete lines and the new buffer.
\<close>

definition feed :: "string \<Rightarrow> string \<Rightarrow> string list \<times> string" where
  "feed buffer chunk =
     (let lines = split_lines (buffer @ chunk)
      in (butlast lines, last lines))"

text \<open>All the turns of the loop: the lines handed on, in order, and the buffer left.\<close>

fun feed_all :: "string \<Rightarrow> string list \<Rightarrow> string list \<times> string" where
  "feed_all buffer [] = ([], buffer)"
| "feed_all buffer (chunk # chunks) =
     (let (lines, buffer') = feed buffer chunk;
          (more, buffer'') = feed_all buffer' chunks
      in (lines @ more, buffer''))"

text \<open>A text made of complete lines: each line followed by its line feed.\<close>

definition unlines :: "string list \<Rightarrow> string" where
  "unlines ls = concat (map (\<lambda>l. l @ [NL]) ls)"

text \<open>
  The lines of a sequence of frames: the framing of a payload is its data line, a line
  feed, and an empty line with its line feed.
\<close>

definition frame_lines :: "string list \<Rightarrow> string list" where
  "frame_lines payloads = concat (map (\<lambda>p. [''data: '' @ p, []]) payloads)"

section \<open>Data model of the chat interface\<close>

datatype role = User | Assistant

record source =
  index :: nat
  title :: string
  url :: string

text \<open>The optional fields \<^verbatim>\<open>thinking?\<close> and \<^verbatim>\<open>sources?\<close> are \<open>None\<close> when undefined.\<close>

record message =
  msg_id :: string
  role :: role
  content :: string
  thinking :: "string option"
  sources :: "source list option"
  timestamp :: nat

datatype workflow_status = WThinking | WSearching | WSummarizing

text \<open>
  The component state that \<^verbatim>\<open>sendMessage\<close> reads and writes. \<open>abortController\<close>
  says whether \<^verbatim>\<open>abortControllerRef.current\<close> holds a controller.
\<close>

record chat_state =
  messages :: "message list"
  input :: string
  isLoading :: bool
  currentStatus :: "workflow_status option"
  abortController :: bool

text \<open>
  A decoded frame: the object \<^verbatim>\<open>JSON.parse\<close> returns, read through the seven
  properties the relay and the consumer look at, each at the type the code uses it at
  (a string, or a list of sources). A property is \<open>None\<close> when it is undefined; a
  parsed text that is not an object has no property at all. The relay builds the same
  objects before \<^verbatim>\<open>JSON.stringify\<close>, which leaves undefined properties out.
\<close>

record json_obj =
  p_type :: "string option"
  p_messageId :: "string option"
  p_id :: "string option"
  p_status :: "string option"
  p_content :: "string option"
  p_delta :: "string option"
  p_sources :: "source list option"

definition empty_obj :: json_obj where
  "empty_obj = \<lparr>p_type = None, p_messageId = None, p_id = None, p_status = None,
     p_content = None, p_delta = None, p_sources = None\<rparr>"

text \<open>\<^verbatim>\<open>a || b\<close> on optional strings: the empty string and undefined are falsy.\<close>

definition js_or :: "string option \<Rightarrow> string option \<Rightarrow> string option" where
  "js_or a b = (case a of None \<Rightarrow> b | Some s \<Rightarrow> if s = [] then b else a)"

text \<open>\<^verbatim>\<open>a || ''\<close>.\<close>

definition or_empty :: "string option \<Rightarrow> string" where
  "or_empty a = (case a of None \<Rightarrow> [] | Some s \<Rightarrow> s)"

text \<open>
  Reading \<^verbatim>\<open>lastMessage.role\<close> when the list is empty throws: the last element is
  undefined.
\<close>

datatype error = TypeError

section \<open>The consumer's state updaters\<close>

text \<open>
  Each updater copies the list, takes its last element and changes it only when its
  role is assistant. \<^verbatim>\<open>nextConfig.reactStrictMode\<close> is false, so an updater runs once.
\<close>

text \<open>\<^verbatim>\<open>lastMessage.content += parsed.content || parsed.delta || ''\<close>\<close>

definition append_content :: "json_obj \<Rightarrow> message list \<Rightarrow> error + message list" where
  "append_content parsed prev =
     (if prev = [] then Inl TypeError
      else let lastMessage = last prev in
        if role lastMessage = Assistant
        then Inr (butlast prev @
               [lastMessage\<lparr>content := content lastMessage @
                  or_empty (js_or (p_content parsed) (p_delta parsed))\<rparr>])
        else Inr prev)"

text \<open>\<^verbatim>\<open>updatedMessage = {...lastMessage, sources: parsed.sources}\<close>\<close>

definition set_sources :: "json_obj \<Rightarrow> message list \<Rightarrow> error + message list" where
  "set_sources parsed prev =
     (if prev = [] then Inl TypeError
      else let lastMessage = last prev in
        if role lastMessage = Assistant
        then Inr (butlast prev @ [lastMessage\<lparr>sources := p_sources parsed\<rparr>])
        else Inr prev)"

text \<open>\<^verbatim>\<open>lastMessage.thinking = (lastMessage.thinking || '') + (parsed.content || '')\<close>\<close>

definition append_thinking :: "json_obj \<Rightarrow> message list \<Rightarrow> error + message list" where
  "append_thinking parsed prev =
     (if prev = [] then Inl TypeError
      else let lastMessage = last prev in
        if role lastMessage = Assistant
        then Inr (butlast prev @
               [lastMessage\<lparr>thinking :=
                  Some (or_empty (thinking lastMessage) @ or_empty (p_content parsed))\<rparr>])
        else Inr prev)"

text \<open>The catch branch: \<^verbatim>\<open>lastMessage.content = 'Sorry, an error occurred. Please try again.'\<close>\<close>

definition failure_text :: string where
  "failure_text = ''Sorry, an error occurred. Please try again.''"

definition set_failure :: "message list \<Rightarrow> error + message list" where
  "set_failure prev =
     (if prev = [] then Inl TypeError
      else let lastMessage = last prev in
        if role lastMessage = Assistant
        then Inr (butlast prev @ [lastMessage\<lparr>content := failure_text\<rparr>])
        else Inr prev)"

definition setMessages ::
  "(message list \<Rightarrow> error + message list) \<Rightarrow> chat_state \<Rightarrow> error + chat_state" where
  "setMessages updater st =
     (case updater (messages st) of
        Inl e \<Rightarrow> Inl e
      | Inr ms \<Rightarrow> Inr (st\<lparr>messages := ms\<rparr>))"

text \<open>
  The chain of tests on \<^verbatim>\<open>parsed.type\<close>. The properties \<^verbatim>\<open>id\<close> and
  \<^verbatim>\<open>messageId\<close> are never read; the types start, text-start and text-end match no
  branch.
\<close>

definition handle_parsed :: "json_obj \<Rightarrow> chat_state \<Rightarrow> error + chat_state" where
  "handle_parsed parsed st =
     (if p_type parsed = Some ''content'' \<or> p_type parsed = Some ''text-delta''
      then setMessages (append_content parsed) st
      else if p_type parsed = Some ''sources''
      then setMessages (set_sources parsed) st
      else if p_type parsed = Some ''thinking''
      then setMessages (append_thinking parsed) st
      else if p_type parsed = Some ''status''
      then (if p_status parsed = Some ''searching''
            then Inr (st\<lparr>currentStatus := Some WSearching\<rparr>)
            else if p_status parsed = Some ''summarizing''
            then Inr (st\<lparr>currentStatus := Some WSummarizing\<rparr>)
            else Inr st)
      else Inr st)"

text \<open>Decoded events applied one after another; the first throwing updater ends the run.\<close>

fun apply_events :: "json_obj list \<Rightarrow> chat_state \<Rightarrow> error + chat_state" where
  "apply_events [] st = Inr st"
| "apply_events (parsed # rest) st =
     (case handle_parsed parsed st of
        Inl e \<Rightarrow> Inl e
      | Inr st' \<Rightarrow> apply_events rest st')"

section \<open>The events of the wire protocol\<close>

text \<open>
  The objects the relay serialises, one constructor per object literal of its stream
  (the end of the stream is the text \<^verbatim>\<open>[DONE]\<close>, not an object).
\<close>

datatype stream_event =
    Start string
  | TextStart string
  | Status string
  | Thinking string
  | TextDelta string string
  | Sources "source list"
  | TextEnd string

fun wire :: "stream_event \<Rightarrow> json_obj" where
  "wire (Start messageId) =
     empty_obj\<lparr>p_type := Some ''start'', p_messageId := Some messageId\<rparr>"
| "wire (TextStart textId) =
     empty_obj\<lparr>p_type := Some ''text-start'', p_id := Some textId\<rparr>"
| "wire (Status s) =
     empty_obj\<lparr>p_type := Some ''status'', p_status := Some s\<rparr>"
| "wire (Thinking c) =
     empty_obj\<lparr>p_type := Some ''thinking'', p_content := Some c\<rparr>"
| "wire (TextDelta textId d) =
     empty_obj\<lparr>p_type := Some ''text-delta'', p_id := Some textId, p_delta := Some d\<rparr>"
| "wire (Sources ss) =
     empty_obj\<lparr>p_type := Some ''sources'', p_sources := Some ss\<rparr>"
| "wire (TextEnd textId) =
     empty_obj\<lparr>p_type := Some ''text-end'', p_id := Some textId\<rparr>"

text \<open>The backend's content event, as the relay reads it.\<close>

definition upstream_content :: "string \<Rightarrow> json_obj" where
  "upstream_content c = empty_obj\<lparr>p_type := Some ''content'', p_content := Some c\<rparr>"

fun deltas :: "stream_event list \<Rightarrow> string list" where
  "deltas [] = []"
| "deltas (TextDelta textId d # evs) = d # deltas evs"
| "deltas (ev # evs) = deltas evs"

fun thoughts :: "stream_event list \<Rightarrow> string list" where
  "thoughts [] = []"
| "thoughts (Thinking c # evs) = c # thoughts evs"
| "thoughts (ev # evs) = thoughts evs"

section \<open>The consumer's read loop\<close>

text \<open>
  \<open>parse\<close> stands for \<^verbatim>\<open>JSON.parse\<close>: \<open>None\<close> when it throws (and for
  null, whose \<^verbatim>\<open>.type\<close> throws inside the same block), otherwise the object.
\<close>

type_synonym parser = "string \<Rightarrow> json_obj option"

text \<open>
  The body of \<^verbatim>\<open>for (const line of lines)\<close>. The text \<^verbatim>\<open>[DONE]\<close> leaves the for
  loop (the lines left in this batch are not looked at); a payload that does not parse
  is logged and the loop goes on.
\<close>

fun process_lines :: "parser \<Rightarrow> string list \<Rightarrow> chat_state \<Rightarrow> error + chat_state" where
  "process_lines parse [] st = Inr st"
| "process_lines parse (line # rest) st =
     (if startsWith line ''data: '' then
        (let data = trim (drop 6 line) in
         if data = ''[DONE]'' then Inr st
         else (case parse data of
                 None \<Rightarrow> process_lines parse rest st
               | Some parsed \<Rightarrow>
                   (case handle_parsed parsed st of
                      Inl e \<Rightarrow> Inl e
                    | Inr st' \<Rightarrow> process_lines parse rest st')))
      else process_lines parse rest st)"

text \<open>
  \<^verbatim>\<open>while (true)\<close> over the chunks the reader delivers before it reports done (or
  rejects): the list of chunks is what \<^verbatim>\<open>reader.read()\<close> returned, in order.
\<close>

fun read_loop :: "parser \<Rightarrow> string \<Rightarrow> string list \<Rightarrow> chat_state \<Rightarrow> error + chat_state" where
  "read_loop parse buffer [] st = Inr st"
| "read_loop parse buffer (chunk # chunks) st =
     (case feed buffer chunk of
        (lines, buffer') \<Rightarrow>
          (case process_lines parse lines st of
             Inl e \<Rightarrow> Inl e
           | Inr st' \<Rightarrow> read_loop parse buffer' chunks st'))"

text \<open>
  The decoded events of a batch and of a whole stream: the values of \<^verbatim>\<open>parsed\<close>
  that reach the tests on \<^verbatim>\<open>parsed.type\<close>, in order.
\<close>

fun batch_events :: "parser \<Rightarrow> string list \<Rightarrow> json_obj list" where
  "batch_events parse [] = []"
| "batch_events parse (line # rest) =
     (if startsWith line ''data: '' then
        (let data = trim (drop 6 line) in
         if data = ''[DONE]'' then []
         else (case parse data of
                 None \<Rightarrow> batch_events parse rest
               | Some parsed \<Rightarrow> parsed # batch_events parse rest))
      else batch_events parse rest)"

fun stream_events :: "parser \<Rightarrow> string \<Rightarrow> string list \<Rightarrow> json_obj list" where
  "stream_events parse buffer [] = []"
| "stream_events parse buffer (chunk # chunks) =
     (case feed buffer chunk of
        (lines, buffer') \<Rightarrow> batch_events parse lines @ stream_events parse buffer' chunks)"

text \<open>A line that ends the for loop, and a line the loop looks into at all.\<close>

definition is_data_line :: "string \<Rightarrow> bool" where
  "is_data_line line = startsWith line ''data: ''"

definition is_done_line :: "string \<Rightarrow> bool" where
  "is_done_line line = (is_data_line line \<and> trim (drop 6 line) = ''[DONE]'')"

text \<open>Done is terminal: no data line follows the first \<^verbatim>\<open>[DONE]\<close> line.\<close>

fun done_is_last :: "string list \<Rightarrow> bool" where
  "done_is_last [] = True"
| "done_is_last (line # rest) =
     (if is_done_line line then list_all (\<lambda>l. \<not> is_data_line l) rest
      else done_is_last rest)"

text \<open>
  The events one line stands for in the consumer: the decoded payload of a data line,
  nothing for a payload that does not parse, for \<^verbatim>\<open>[DONE]\<close> and for any other line.
\<close>

definition line_event :: "parser \<Rightarrow> string \<Rightarrow> json_obj list" where
  "line_event parse line =
     (if startsWith line ''data: '' \<and> trim (drop 6 line) \<noteq> ''[DONE]''
      then (case parse (trim (drop 6 line)) of None \<Rightarrow> [] | Some parsed \<Rightarrow> [parsed])
      else [])"

section \<open>sendMessage\<close>

text \<open>\<^verbatim>\<open>n.toString()\<close> of a non-negative integer.\<close>

fun toString :: "nat \<Rightarrow> string" where
  "toString n =
     (if n < 10 then [char_of (48 + n)]
      else toString (n div 10) @ [char_of (48 + n mod 10)])"

declare toString.simps [simp del]

text \<open>The four clock readings, in the order of the calls.\<close>

record clock =
  user_now :: nat
  user_date :: nat
  assistant_now :: nat
  assistant_date :: nat

text \<open>\<^verbatim>\<open>localStorage.getItem('llmConfig')\<close> and its \<^verbatim>\<open>JSON.parse\<close>, outside the try block.\<close>

datatype config_read = ConfigAbsent | ConfigParsed | ConfigCorrupt

text \<open>How the reader stops: done, or a rejected read (an abort, or anything else).\<close>

datatype read_end = EndOfStream | ReadAbort | ReadFail

text \<open>
  What the network does for one request: \<^verbatim>\<open>fetch\<close> rejects (aborted, or failed), or
  resolves with a status and a body; the body holds the chunks read and how reading stops.
\<close>

datatype fetch_outcome =
    FetchAbort
  | FetchFail
  | Response nat "(string list \<times> read_end) option"

definition ok :: "nat \<Rightarrow> bool" where
  "ok status = (200 \<le> status \<and> status \<le> 299)"

text \<open>What is thrown inside the try block.\<close>

datatype thrown = AbortError | OtherError

text \<open>
  How a call ends: the early return, the try block running to its end, the catch
  branch for \<^verbatim>\<open>AbortError\<close>, the catch branch for any other error.
\<close>

datatype outcome = Rejected | Completed | Aborted | Errored

text \<open>
  The synchronous start of \<^verbatim>\<open>sendMessage\<close>, up to the request, for a call of the
  closure made by the render of the state \<open>st\<close>: \<open>None\<close> is the early return, which
  changes nothing and sends nothing.
\<close>

definition sendMessage_begin :: "clock \<Rightarrow> string \<Rightarrow> chat_state \<Rightarrow> chat_state option" where
  "sendMessage_begin clk messageText st =
     (if trim messageText = [] \<or> isLoading st then None
      else
        let userMessage = \<lparr>msg_id = toString (user_now clk), role = User,
              content = messageText, thinking = None, sources = None,
              timestamp = user_date clk\<rparr>;
            assistantMessage = \<lparr>msg_id = toString (assistant_now clk + 1), role = Assistant,
              content = [], thinking = Some [], sources = None,
              timestamp = assistant_date clk\<rparr>
        in Some (st\<lparr>abortController := True,
                    messages := messages st @ [userMessage, assistantMessage],
                    input := [],
                    isLoading := True,
                    currentStatus := Some WThinking\<rparr>))"

text \<open>
  The same start for a call of the closure made by an earlier render. The guard reads
  the \<^verbatim>\<open>isLoading\<close> that this render captured (the state \<open>rendered\<close>);
  \<^verbatim>\<open>setIsLoading(true)\<close> is only queued and does not change it. The updates
  themselves apply to the state \<open>st\<close> that the earlier updates have led to.
\<close>

definition sendMessage_begin_in ::
  "chat_state \<Rightarrow> clock \<Rightarrow> string \<Rightarrow> chat_state \<Rightarrow> chat_state option" where
  "sendMessage_begin_in rendered clk messageText st =
     (if trim messageText = [] \<or> isLoading rendered then None
      else
        let userMessage = \<lparr>msg_id = toString (user_now clk), role = User,
              content = messageText, thinking = None, sources = None,
              timestamp = user_date clk\<rparr>;
            assistantMessage = \<lparr>msg_id = toString (assistant_now clk + 1), role = Assistant,
              content = [], thinking = Some [], sources = None,
              timestamp = assistant_date clk\<rparr>
        in Some (st\<lparr>abortController := True,
                    messages := messages st @ [userMessage, assistantMessage],
                    input := [],
                    isLoading := True,
                    currentStatus := Some WThinking\<rparr>))"

text \<open>The try block: the state reached, and what was thrown if anything was.\<close>

definition try_block ::
  "parser \<Rightarrow> fetch_outcome \<Rightarrow> chat_state \<Rightarrow> error + (thrown option \<times> chat_state)" where
  "try_block parse net st =
     (case net of
        FetchAbort \<Rightarrow> Inr (Some AbortError, st)
      | FetchFail \<Rightarrow> Inr (Some OtherError, st)
      | Response status body \<Rightarrow>
          if \<not> ok status then Inr (Some OtherError, st)
          else (case body of
                  None \<Rightarrow> Inr (Some OtherError, st)
                | Some (chunks, ending) \<Rightarrow>
                    (case read_loop parse [] chunks st of
                       Inl e \<Rightarrow> Inl e
                     | Inr st' \<Rightarrow>
                         (case ending of
                            EndOfStream \<Rightarrow> Inr (None, st')
                          | ReadAbort \<Rightarrow> Inr (Some AbortError, st')
                          | ReadFail \<Rightarrow> Inr (Some OtherError, st')))))"

definition catch_block :: "thrown option \<Rightarrow> chat_state \<Rightarrow> error + (outcome \<times> chat_state)" where
  "catch_block t st =
     (case t of
        None \<Rightarrow> Inr (Completed, st)
      | Some AbortError \<Rightarrow> Inr (Aborted, st)
      | Some OtherError \<Rightarrow>
          (case setMessages set_failure st of
             Inl e \<Rightarrow> Inl e
           | Inr st' \<Rightarrow> Inr (Errored, st')))"

definition finally_block :: "chat_state \<Rightarrow> chat_state" where
  "finally_block st = st\<lparr>isLoading := False, currentStatus := None, abortController := False\<rparr>"

text \<open>
  The whole call. \<open>Inl\<close> is an exception that leaves \<^verbatim>\<open>sendMessage\<close>: the syntax
  error of a corrupt stored configuration, or an updater that throws.
\<close>

datatype escaped = ConfigSyntaxError | UpdaterError error

definition sendMessage ::
  "parser \<Rightarrow> clock \<Rightarrow> config_read \<Rightarrow> fetch_outcome \<Rightarrow> string \<Rightarrow> chat_state
     \<Rightarrow> escaped + (outcome \<times> chat_state)" where
  "sendMessage parse clk cfg net messageText st =
     (case sendMessage_begin clk messageText st of
        None \<Rightarrow> Inr (Rejected, st)
      | Some st1 \<Rightarrow>
          if cfg = ConfigCorrupt then Inl ConfigSyntaxError
          else (case try_block parse net st1 of
                  Inl e \<Rightarrow> Inl (UpdaterError e)
                | Inr (t, st2) \<Rightarrow>
                    (case catch_block t st2 of
                       Inl e \<Rightarrow> Inl (UpdaterError e)
                     | Inr (out, st3) \<Rightarrow> Inr (out, finally_block st3))))"

text \<open>\<^verbatim>\<open>stopGeneration\<close>: whether \<^verbatim>\<open>abort()\<close> is called on a controller.\<close>

definition stopGeneration :: "chat_state \<Rightarrow> bool" where
  "stopGeneration st = abortController st"

text \<open>The state at mount, with the messages loaded from session storage.\<close>

definition initial_state :: "message list \<Rightarrow> chat_state" where
  "initial_state saved =
     \<lparr>messages = saved, input = [], isLoading = False, currentStatus = None,
      abortController = False\<rparr>"

section \<open>The relay\<close>

text \<open>\<open>stringify\<close> stands for \<^verbatim>\<open>JSON.stringify\<close>.\<close>

type_synonym printer = "json_obj \<Rightarrow> string"

text \<open>The framing of one payload: \<^verbatim>\<open>`data: ${payload}\n\n`\<close>.\<close>

definition sse :: "string \<Rightarrow> string" where
  "sse payload = ''data: '' @ payload @ [NL, NL]"

definition frame :: "printer \<Rightarrow> json_obj \<Rightarrow> string" where
  "frame stringify obj = sse (stringify obj)"

definition done_frame :: string where
  "done_frame = sse ''[DONE]''"

text \<open>What one upstream line makes the relay enqueue.\<close>

definition relay_line :: "parser \<Rightarrow> printer \<Rightarrow> string \<Rightarrow> string \<Rightarrow> string list" where
  "relay_line parse stringify textId line =
     (if startsWith line ''data: '' then
        (case parse (drop 6 line) of
           None \<Rightarrow> []
         | Some data \<Rightarrow>
             if p_type data = Some ''status''
             then [frame stringify
                     (empty_obj\<lparr>p_type := Some ''status'', p_status := p_status data\<rparr>)]
             else if p_type data = Some ''thinking''
             then [frame stringify
                     (empty_obj\<lparr>p_type := Some ''thinking'', p_content := p_content data\<rparr>)]
             else if p_type data = Some ''content''
             then [frame stringify
                     (empty_obj\<lparr>p_type := Some ''text-delta'', p_id := Some textId,
                        p_delta := p_content data\<rparr>)]
             else if p_type data = Some ''sources''
             then [frame stringify
                     (empty_obj\<lparr>p_type := Some ''sources'', p_sources := p_sources data\<rparr>)]
             else [])
      else [])"

fun relay_loop :: "parser \<Rightarrow> printer \<Rightarrow> string \<Rightarrow> string \<Rightarrow> string list \<Rightarrow> string list" where
  "relay_loop parse stringify textId buffer [] = []"
| "relay_loop parse stringify textId buffer (chunk # chunks) =
     (case feed buffer chunk of
        (lines, buffer') \<Rightarrow>
          concat (map (relay_line parse stringify textId) lines)
          @ relay_loop parse stringify textId buffer' chunks)"

text \<open>
  The objects one backend event and one backend line stand for on the outbound stream:
  status, thinking and sources pass through, content becomes a text-delta with the span
  id, anything else gives nothing.
\<close>

definition relayed :: "string \<Rightarrow> json_obj \<Rightarrow> json_obj list" where
  "relayed tid data =
     (if p_type data = Some ''status''
      then [empty_obj\<lparr>p_type := Some ''status'', p_status := p_status data\<rparr>]
      else if p_type data = Some ''thinking''
      then [empty_obj\<lparr>p_type := Some ''thinking'', p_content := p_content data\<rparr>]
      else if p_type data = Some ''content''
      then [empty_obj\<lparr>p_type := Some ''text-delta'', p_id := Some tid,
              p_delta := p_content data\<rparr>]
      else if p_type data = Some ''sources''
      then [empty_obj\<lparr>p_type := Some ''sources'', p_sources := p_sources data\<rparr>]
      else [])"

definition line_outbound :: "parser \<Rightarrow> string \<Rightarrow> string \<Rightarrow> json_obj list" where
  "line_outbound parse tid line =
     (if startsWith line ''data: ''
      then (case parse (drop 6 line) of None \<Rightarrow> [] | Some data \<Rightarrow> relayed tid data)
      else [])"

text \<open>
  The \<^verbatim>\<open>start\<close> function of the outbound stream: everything enqueued before the
  controller is closed. Without a body nothing is enqueued; a rejected read is caught
  and ends the stream without text-end and \<^verbatim>\<open>[DONE]\<close>.
\<close>

definition relay_stream ::
  "parser \<Rightarrow> printer \<Rightarrow> string \<Rightarrow> string \<Rightarrow> (string list \<times> read_end) option \<Rightarrow> string list" where
  "relay_stream parse stringify messageId textId body =
     (case body of
        None \<Rightarrow> []
      | Some (chunks, ending) \<Rightarrow>
          [frame stringify (wire (Start messageId)),
           frame stringify (wire (TextStart textId))]
          @ relay_loop parse stringify textId [] chunks
          @ (if ending = EndOfStream
             then [frame stringify (wire (TextEnd textId)), done_frame]
             else []))"

record chat_msg =
  req_role :: "string option"
  req_content :: "string option"

record request =
  req_messages :: "chat_msg list option"
  req_llmConfig :: "string option"

record relay_ids =
  sessionId :: string
  messageId :: string
  textId :: string

text \<open>The backend's answer to the one \<^verbatim>\<open>fetch\<close>: it rejects, or resolves.\<close>

datatype upstream =
    UpFetchFail
  | UpResponse nat "(string list \<times> read_end) option"

text \<open>A response body: the chunks of a stream, or \<^verbatim>\<open>JSON.stringify({ error: msg })\<close>.\<close>

datatype response_body = Stream "string list" | JsonError string

record http_response =
  status :: nat
  headers :: "(string \<times> string) list"
  body :: response_body

definition error_response :: http_response where
  "error_response =
     \<lparr>status = 500,
      headers = [(''Content-Type'', ''application/json'')],
      body = JsonError ''Failed to process chat request''\<rparr>"

definition stream_response :: "string list \<Rightarrow> http_response" where
  "stream_response chunks =
     \<lparr>status = 200,
      headers = [(''Content-Type'', ''text/event-stream''),
                 (''Cache-Control'', ''no-cache''),
                 (''Connection'', ''keep-alive''),
                 (''x-vercel-ai-ui-message-stream'', ''v1'')],
      body = Stream chunks\<rparr>"

text \<open>
  The route handler. \<open>req\<close> is \<open>None\<close> when \<^verbatim>\<open>req.json()\<close> throws. The second
  component counts the calls of \<^verbatim>\<open>fetch\<close> to the backend.
\<close>

definition POST ::
  "parser \<Rightarrow> printer \<Rightarrow> relay_ids \<Rightarrow> request option \<Rightarrow> upstream \<Rightarrow> http_response \<times> nat" where
  "POST parse stringify ids req up =
     (case req of
        None \<Rightarrow> (error_response, 0)
      | Some b \<Rightarrow>
          let msgs = (case req_messages b of None \<Rightarrow> [] | Some ms \<Rightarrow> ms) in
          if msgs = [] then (error_response, 0)
          else
            let userMessage = or_empty (req_content (last msgs)) in
            if userMessage = [] then (error_response, 0)
            else (case up of
                    UpFetchFail \<Rightarrow> (error_response, 1)
                  | UpResponse st bd \<Rightarrow>
                      if \<not> ok st then (error_response, 1)
                      else (stream_response
                              (relay_stream parse stringify (messageId ids) (textId ids) bd),
                            1)))"

text \<open>The frames of the outbound stream, when the response has one.\<close>

definition outbound_frames :: "http_response \<Rightarrow> string list option" where
  "outbound_frames r = (case body r of Stream chunks \<Rightarrow> Some chunks | JsonError m \<Rightarrow> None)"

text \<open>The upstream connection attempt failed: the fetch rejected, or the status is not a success.\<close>

fun upstream_failed :: "upstream \<Rightarrow> bool" where
  "upstream_failed UpFetchFail = True"
| "upstream_failed (UpResponse code bd) = (\<not> ok code)"

text \<open>The request passes the two checks made before the backend is called.\<close>

definition request_accepted :: "request option \<Rightarrow> bool" where
  "request_accepted req =
     (case req of
        None \<Rightarrow> False
      | Some b \<Rightarrow>
          (case req_messages b of
             None \<Rightarrow> False
           | Some ms \<Rightarrow> ms \<noteq> [] \<and> or_empty (req_content (last ms)) \<noteq> []))"

section \<open>Observations and sample data\<close>

text \<open>The content of the last message of a result, and the way a call ended.\<close>

definition last_content :: "error + chat_state \<Rightarrow> string option" where
  "last_content r =
     (case r of
        Inl e \<Rightarrow> None
      | Inr st \<Rightarrow> if messages st = [] then None else Some (content (last (messages st))))"

definition final_content :: "escaped + (outcome \<times> chat_state) \<Rightarrow> string option" where
  "final_content r =
     (case r of
        Inl e \<Rightarrow> None
      | Inr (out, st) \<Rightarrow> if messages st = [] then None else Some (content (last (messages st))))"

definition final_outcome :: "escaped + (outcome \<times> chat_state) \<Rightarrow> outcome option" where
  "final_outcome r = (case r of Inl e \<Rightarrow> None | Inr (out, st) \<Rightarrow> Some out)"


text \<open>
  A decoder and a printer for the examples: a table of the payloads used below, with
  the object each one denotes. Every other text fails to parse.
\<close>

definition sample_frames :: "(string \<times> json_obj) list" where
  \<open>sample_frames =
     [(''{"type":"thinking","content":"hm"}'', wire (Thinking ''hm'')),
      (''{"type":"status","status":"searching"}'', wire (Status ''searching'')),
      (''{"type":"text-start","id":"s1"}'', wire (TextStart ''s1'')),
      (''{"type":"text-delta","id":"s1","delta":"Par"}'', wire (TextDelta ''s1'' ''Par'')),
      (''{"type":"text-delta","id":"s1","delta":"is"}'', wire (TextDelta ''s1'' ''is'')),
      (''{"type":"text-delta","id":"s1","delta":"X"}'', wire (TextDelta ''s1'' ''X'')),
      (''{"type":"text-delta","id":"s1","delta":"Hel"}'', wire (TextDelta ''s1'' ''Hel'')),
      (''{"type":"text-delta","id":"s1","delta":"lo"}'', wire (TextDelta ''s1'' ''lo'')),
      (''{"type":"text-end","id":"s1"}'', wire (TextEnd ''s1'')),
      (''{"type":"content","content":"Hel"}'', upstream_content ''Hel''),
      (''{"type":"content","content":"lo"}'', upstream_content ''lo'')]\<close>

definition sample_parse :: parser where
  "sample_parse s = map_of sample_frames s"

definition sample_stringify :: printer where
  "sample_stringify obj =
     (case find (\<lambda>entry. snd entry = obj) sample_frames of
        None \<Rightarrow> ''{}''
      | Some entry \<Rightarrow> fst entry)"

definition sample_clock :: clock where
  "sample_clock = \<lparr>user_now = 1700000000000, user_date = 1700000000000,
     assistant_now = 1700000000000, assistant_date = 1700000000000\<rparr>"

definition sample_question :: string where
  "sample_question = ''Capital of France?''"

text \<open>The state right after the question was submitted to an empty conversation.\<close>

definition sample_state :: chat_state where
  "sample_state =
     \<lparr>messages =
        [\<lparr>msg_id = toString 1700000000000, role = User, content = sample_question,
          thinking = None, sources = None, timestamp = 1700000000000\<rparr>,
         \<lparr>msg_id = toString 1700000000001, role = Assistant, content = [],
          thinking = Some [], sources = None, timestamp = 1700000000000\<rparr>],
      input = [], isLoading = True, currentStatus = Some WThinking,
      abortController = True\<rparr>"

text \<open>A stream of four frames cut into three chunks, twice in the middle of a frame.\<close>

definition sample_chunks :: "string list" where
  \<open>sample_chunks =
     [''data: {"type":"thinking","content":"hm"}'' @ [NL, NL] @ ''data: {"type":"text-del'',
      ''ta","id":"s1","delta":"Hel"}'' @ [NL],
      [NL] @ ''data: {"type":"status","status":"searching"}'' @ [NL, NL]
        @ ''data: {"type":"text-delta","id":"s1","delta":"lo"}'' @ [NL, NL]
        @ ''data: [DONE]'' @ [NL, NL]]\<close>

text \<open>One text-delta frame carrying \<^verbatim>\<open>Par\<close>.\<close>

definition par_chunks :: "string list" where
  \<open>par_chunks = [sse ''{"type":"text-delta","id":"s1","delta":"Par"}'']\<close>

definition sample_request :: request where
  "sample_request =
     \<lparr>req_messages = Some [\<lparr>req_role = Some ''user'', req_content = Some sample_question\<rparr>],
      req_llmConfig = None\<rparr>"

definition sample_ids :: relay_ids where
  "sample_ids = \<lparr>sessionId = ''k3x9q'', messageId = ''m1'', textId = ''s1''\<rparr>"

definition paris_source :: source where
  "paris_source = \<lparr>index = 1, title = ''Wikipedia: Paris'',
     url = ''https://en.wikipedia.org/wiki/Paris''\<rparr>"

definition france_source :: source where
  "france_source = \<lparr>index = 2, title = ''Wikipedia: France'',
     url = ''https://en.wikipedia.org/wiki/France''\<rparr>"

text \<open>Payloads for the example of a frame that does not decode.\<close>

definition hel_payload :: string where
  \<open>hel_payload = ''{"type":"text-delta","id":"s1","delta":"Hel"}''\<close>

definition lo_payload :: string where
  \<open>lo_payload = ''{"type":"text-delta","id":"s1","delta":"lo"}''\<close>

definition garbage_payload :: string where
  \<open>garbage_payload = ''{"type":"text-del''\<close>

definition hello_chunks :: "string list" where
  "hello_chunks =
     [sse hel_payload @ take 9 (sse garbage_payload),
      drop 9 (sse garbage_payload) @ sse lo_payload @ done_frame]"

text \<open>The same example on the backend's side of the relay.\<close>

definition upstream_hel :: string where
  \<open>upstream_hel = ''{"type":"content","content":"Hel"}''\<close>

definition upstream_lo :: string where
  \<open>upstream_lo = ''{"type":"content","content":"lo"}''\<close>

definition upstream_chunks :: "string list" where
  "upstream_chunks =
     [sse upstream_hel @ take 9 (sse garbage_payload),
      drop 9 (sse garbage_payload) @ sse upstream_lo]"

text \<open>A conversation whose last message is the user's.\<close>

definition user_only_state :: chat_state where
  "user_only_state = initial_state
     [\<lparr>msg_id = toString 1700000000000, role = User, content = sample_question,
       thinking = None, sources = None, timestamp = 1700000000000\<rparr>]"

text \<open>A frame carrying \<^verbatim>\<open>Par\<close>, and the same frame short of its second line feed.\<close>

definition par_payload :: string where
  \<open>par_payload = ''{"type":"text-delta","id":"s1","delta":"Par"}''\<close>

definition half_frame :: string where
  "half_frame = ''data: '' @ par_payload @ [NL]"

text \<open>The lines of the sample stream and of the sample input of the relay.\<close>

definition hm_payload :: string where
  \<open>hm_payload = ''{"type":"thinking","content":"hm"}''\<close>

definition searching_payload :: string where
  \<open>searching_payload = ''{"type":"status","status":"searching"}''\<close>

definition sample_lines :: "string list" where
  "sample_lines =
     frame_lines [hm_payload, hel_payload, searching_payload, lo_payload, ''[DONE]'']"

definition upstream_lines :: "string list" where
  "upstream_lines = frame_lines [upstream_hel, garbage_payload, upstream_lo]"

section \<open>Line reassembly\<close>

lemma split_lines_nonempty: "split_lines s \<noteq> []"
  by (induction s) (auto split: list.splits)

lemma split_lines_no_nl: "NL \<notin> set s \<Longrightarrow> split_lines s = [s]"
  by (induction s) auto

lemma last_split_lines_no_nl: "NL \<notin> set (last (split_lines s))"
  by (induction s) (auto split: list.splits simp: split_lines_nonempty)

lemma split_lines_append_line:
  "NL \<notin> set l \<Longrightarrow> split_lines (l @ r) = (l @ hd (split_lines r)) # tl (split_lines r)"
  by (induction l) (auto split: list.splits simp: split_lines_nonempty)

lemma split_lines_append:
  "split_lines (a @ r) = butlast (split_lines a) @ split_lines (last (split_lines a) @ r)"
proof (induction a)
  case Nil
  then show ?case by simp
next
  case (Cons c a)
  show ?case
  proof (cases "c = NL")
    case True
    then show ?thesis using Cons by (simp add: split_lines_nonempty)
  next
    case False
    obtain l ls where sa: "split_lines a = l # ls"
      using split_lines_nonempty [of a] by (cases "split_lines a") auto
    show ?thesis
    proof (cases "ls = []")
      case True
      with sa False Cons show ?thesis by simp
    next
      case ne: False
      have "split_lines (l @ r) \<noteq> []" by (rule split_lines_nonempty)
      with sa False Cons ne show ?thesis
        by (auto split: list.splits simp: split_lines_nonempty)
    qed
  qed
qed

lemma feed_all_lines:
  "NL \<notin> set buffer \<Longrightarrow>
   feed_all buffer chunks =
     (butlast (split_lines (buffer @ concat chunks)), last (split_lines (buffer @ concat chunks)))"
proof (induction chunks arbitrary: buffer)
  case Nil
  then show ?case by (simp add: split_lines_no_nl)
next
  case (Cons chunk chunks)
  let ?b = "last (split_lines (buffer @ chunk))"
  have nb: "NL \<notin> set ?b" by (rule last_split_lines_no_nl)
  have sp: "split_lines (buffer @ chunk @ concat chunks) =
            butlast (split_lines (buffer @ chunk)) @ split_lines (?b @ concat chunks)"
    using split_lines_append [of "buffer @ chunk" "concat chunks"] by simp
  have ne: "split_lines (?b @ concat chunks) \<noteq> []" by (rule split_lines_nonempty)
  show ?case
    using Cons.IH [OF nb] sp ne
    by (simp add: feed_def Let_def butlast_append)
qed

lemma split_lines_line:
  "NL \<notin> set l \<Longrightarrow> split_lines (l @ NL # r) = l # split_lines r"
  using split_lines_append_line [of l "NL # r"] by simp

lemma split_lines_unlines:
  "list_all (\<lambda>l. NL \<notin> set l) ls \<Longrightarrow> NL \<notin> set rest \<Longrightarrow>
   split_lines (unlines ls @ rest) = ls @ [rest]"
proof (induction ls)
  case Nil
  then show ?case by (simp add: unlines_def split_lines_no_nl)
next
  case (Cons l ls)
  then have "split_lines (unlines ls @ rest) = ls @ [rest]" by simp
  moreover have "unlines (l # ls) @ rest = l @ NL # (unlines ls @ rest)"
    by (simp add: unlines_def)
  moreover have "NL \<notin> set l" using Cons.prems by simp
  ultimately show ?case by (simp add: split_lines_line)
qed

lemma feed_all_unlines:
  assumes "list_all (\<lambda>l. NL \<notin> set l) ls" and "NL \<notin> set rest"
    and "concat chunks = unlines ls @ rest"
  shows "feed_all [] chunks = (ls, rest)"
  using feed_all_lines [of "[]" chunks] split_lines_unlines [OF assms(1,2)] assms(3)
  by simp

section \<open>The updaters leave all but the last message alone\<close>

lemma updater_frame:
  assumes "prev \<noteq> []"
  shows "\<exists>ms. append_content parsed prev = Inr ms \<and> ms \<noteq> [] \<and> butlast ms = butlast prev
           \<and> role (last ms) = role (last prev)"
    and "\<exists>ms. set_sources parsed prev = Inr ms \<and> ms \<noteq> [] \<and> butlast ms = butlast prev
           \<and> role (last ms) = role (last prev)"
    and "\<exists>ms. append_thinking parsed prev = Inr ms \<and> ms \<noteq> [] \<and> butlast ms = butlast prev
           \<and> role (last ms) = role (last prev)"
    and "\<exists>ms. set_failure prev = Inr ms \<and> ms \<noteq> [] \<and> butlast ms = butlast prev
           \<and> role (last ms) = role (last prev)"
  using assms
  by (simp_all add: append_content_def set_sources_def append_thinking_def set_failure_def Let_def)

lemma handle_parsed_frame:
  assumes "messages st \<noteq> []"
  shows "\<exists>st'. handle_parsed parsed st = Inr st' \<and> messages st' \<noteq> []
           \<and> butlast (messages st') = butlast (messages st)
           \<and> role (last (messages st')) = role (last (messages st))
           \<and> isLoading st' = isLoading st \<and> abortController st' = abortController st
           \<and> input st' = input st"
proof -
  obtain m1 where m1: "append_content parsed (messages st) = Inr m1" "m1 \<noteq> []"
      "butlast m1 = butlast (messages st)" "role (last m1) = role (last (messages st))"
    using updater_frame(1) [OF assms] by blast
  obtain m2 where m2: "set_sources parsed (messages st) = Inr m2" "m2 \<noteq> []"
      "butlast m2 = butlast (messages st)" "role (last m2) = role (last (messages st))"
    using updater_frame(2) [OF assms] by blast
  obtain m3 where m3: "append_thinking parsed (messages st) = Inr m3" "m3 \<noteq> []"
      "butlast m3 = butlast (messages st)" "role (last m3) = role (last (messages st))"
    using updater_frame(3) [OF assms] by blast
  show ?thesis
    unfolding handle_parsed_def setMessages_def
    using m1 m2 m3 assms by simp
qed

lemma process_lines_events:
  "process_lines parse lines st = apply_events (batch_events parse lines) st"
  by (induction lines arbitrary: st) (auto simp: Let_def split: option.splits sum.splits)

lemma apply_events_append:
  "apply_events (xs @ ys) st =
     (case apply_events xs st of Inl e \<Rightarrow> Inl e | Inr st' \<Rightarrow> apply_events ys st')"
  by (induction xs arbitrary: st) (auto split: sum.splits)

lemma read_loop_events:
  "read_loop parse buffer chunks st = apply_events (stream_events parse buffer chunks) st"
  by (induction chunks arbitrary: buffer st)
     (auto simp: process_lines_events apply_events_append split: sum.splits prod.splits)

lemma apply_events_frame:
  "messages st \<noteq> [] \<Longrightarrow>
   \<exists>st'. apply_events evs st = Inr st' \<and> messages st' \<noteq> []
      \<and> butlast (messages st') = butlast (messages st)
      \<and> role (last (messages st')) = role (last (messages st))
      \<and> isLoading st' = isLoading st \<and> abortController st' = abortController st
      \<and> input st' = input st"
proof (induction evs arbitrary: st)
  case Nil
  then show ?case by simp
next
  case (Cons ev evs)
  from handle_parsed_frame [OF Cons.prems, of ev] obtain st1 where
    h: "handle_parsed ev st = Inr st1" "messages st1 \<noteq> []"
       "butlast (messages st1) = butlast (messages st)"
       "role (last (messages st1)) = role (last (messages st))"
       "isLoading st1 = isLoading st" "abortController st1 = abortController st"
       "input st1 = input st"
    by blast
  from Cons.IH [OF h(2)] h show ?case by auto
qed

section \<open>The effect of the events of the wire protocol\<close>

lemma handle_wire_effect:
  assumes "messages st \<noteq> []" and "role (last (messages st)) = Assistant"
  shows "\<exists>st'. handle_parsed (wire ev) st = Inr st'
           \<and> messages st' \<noteq> [] \<and> role (last (messages st')) = Assistant
           \<and> butlast (messages st') = butlast (messages st)
           \<and> content (last (messages st')) = content (last (messages st)) @ concat (deltas [ev])
           \<and> or_empty (thinking (last (messages st')))
               = or_empty (thinking (last (messages st))) @ concat (thoughts [ev])
           \<and> (\<forall>t. thinking (last (messages st)) = Some t \<longrightarrow>
                 thinking (last (messages st')) = Some (t @ concat (thoughts [ev])))
           \<and> sources (last (messages st'))
               = (case ev of Sources ss \<Rightarrow> Some ss | _ \<Rightarrow> sources (last (messages st)))"
  using assms
  by (cases ev)
     (simp_all add: handle_parsed_def setMessages_def append_content_def set_sources_def
        append_thinking_def empty_obj_def js_or_def or_empty_def Let_def)

lemma apply_wire_effect:
  "messages st \<noteq> [] \<Longrightarrow> role (last (messages st)) = Assistant \<Longrightarrow>
   \<exists>st'. apply_events (map wire evs) st = Inr st'
      \<and> messages st' \<noteq> [] \<and> role (last (messages st')) = Assistant
      \<and> butlast (messages st') = butlast (messages st)
      \<and> content (last (messages st')) = content (last (messages st)) @ concat (deltas evs)
      \<and> or_empty (thinking (last (messages st')))
          = or_empty (thinking (last (messages st))) @ concat (thoughts evs)
      \<and> (\<forall>t. thinking (last (messages st)) = Some t \<longrightarrow>
            thinking (last (messages st')) = Some (t @ concat (thoughts evs)))"
proof (induction evs arbitrary: st)
  case Nil
  then show ?case by simp
next
  case (Cons ev evs)
  from handle_wire_effect [OF Cons.prems, of ev] obtain st1 where
    h: "handle_parsed (wire ev) st = Inr st1" "messages st1 \<noteq> []"
       "role (last (messages st1)) = Assistant"
       "butlast (messages st1) = butlast (messages st)"
       "content (last (messages st1)) = content (last (messages st)) @ concat (deltas [ev])"
       "or_empty (thinking (last (messages st1)))
          = or_empty (thinking (last (messages st))) @ concat (thoughts [ev])"
       "\<forall>t. thinking (last (messages st)) = Some t \<longrightarrow>
            thinking (last (messages st1)) = Some (t @ concat (thoughts [ev]))"
    by blast
  from Cons.IH [OF h(2,3)] obtain st2 where
    i: "apply_events (map wire evs) st1 = Inr st2" "messages st2 \<noteq> []"
       "role (last (messages st2)) = Assistant"
       "butlast (messages st2) = butlast (messages st1)"
       "content (last (messages st2)) = content (last (messages st1)) @ concat (deltas evs)"
       "or_empty (thinking (last (messages st2)))
          = or_empty (thinking (last (messages st1))) @ concat (thoughts evs)"
       "\<forall>t. thinking (last (messages st1)) = Some t \<longrightarrow>
            thinking (last (messages st2)) = Some (t @ concat (thoughts evs))"
    by blast
  have d: "deltas (ev # evs) = deltas [ev] @ deltas evs"
    by (cases ev) simp_all
  have t: "thoughts (ev # evs) = thoughts [ev] @ thoughts evs"
    by (cases ev) simp_all
  show ?case
    using h i by (simp add: d t)
qed

lemma begin_state:
  assumes "sendMessage_begin clk messageText st = Some st1"
  shows "messages st1 \<noteq> []" "role (last (messages st1)) = Assistant"
    "content (last (messages st1)) = []" "thinking (last (messages st1)) = Some []"
    "sources (last (messages st1)) = None"
    "butlast (messages st1) = messages st @
       [\<lparr>msg_id = toString (user_now clk), role = User, content = messageText,
         thinking = None, sources = None, timestamp = user_date clk\<rparr>]"
    "isLoading st1" "\<not> isLoading st" "trim messageText \<noteq> []"
  using assms
  by (auto simp: sendMessage_begin_def Let_def butlast_append split: if_splits)

section \<open>Chunking and the decoded events\<close>

lemma batch_events_append:
  "batch_events parse (xs @ ys) =
     (if list_ex is_done_line xs then batch_events parse xs
      else batch_events parse xs @ batch_events parse ys)"
  by (induction xs)
     (auto simp: is_done_line_def is_data_line_def Let_def split: option.splits)

lemma batch_events_nodata:
  "list_all (\<lambda>l. \<not> is_data_line l) ls \<Longrightarrow> batch_events parse ls = []"
  by (induction ls) (auto simp: is_data_line_def)

lemma stream_events_nodata:
  "list_all (\<lambda>l. \<not> is_data_line l) (fst (feed_all buffer chunks)) \<Longrightarrow>
   stream_events parse buffer chunks = []"
  by (induction chunks arbitrary: buffer)
     (auto simp: batch_events_nodata split: prod.splits)

lemma done_is_last_append:
  "done_is_last (xs @ ys) \<Longrightarrow>
   (if list_ex is_done_line xs then list_all (\<lambda>l. \<not> is_data_line l) ys
    else done_is_last ys)"
  by (induction xs) (auto split: if_splits)

lemma stream_events_batch:
  "done_is_last (fst (feed_all buffer chunks)) \<Longrightarrow>
   stream_events parse buffer chunks = batch_events parse (fst (feed_all buffer chunks))"
proof (induction chunks arbitrary: buffer)
  case Nil
  then show ?case by simp
next
  case (Cons chunk chunks)
  obtain l1 b' where f: "feed buffer chunk = (l1, b')" by (cases "feed buffer chunk")
  obtain l2 b'' where g: "feed_all b' chunks = (l2, b'')" by (cases "feed_all b' chunks")
  have all: "fst (feed_all buffer (chunk # chunks)) = l1 @ l2"
    using f g by simp
  with Cons.prems have d: "done_is_last (l1 @ l2)" by simp
  show ?case
  proof (cases "list_ex is_done_line l1")
    case True
    with done_is_last_append [OF d] have "list_all (\<lambda>l. \<not> is_data_line l) l2" by simp
    then have "stream_events parse b' chunks = []"
      using g stream_events_nodata [of b' chunks parse] by simp
    with True f all show ?thesis by (simp add: batch_events_append)
  next
    case False
    with done_is_last_append [OF d] have "done_is_last l2" by simp
    then have "stream_events parse b' chunks = batch_events parse l2"
      using g Cons.IH [of b'] by simp
    with False f all show ?thesis by (simp add: batch_events_append)
  qed
qed

lemma relay_loop_lines:
  "relay_loop parse stringify tid buffer chunks =
     concat (map (relay_line parse stringify tid) (fst (feed_all buffer chunks)))"
  by (induction chunks arbitrary: buffer) (auto split: prod.splits)

lemma batch_events_lines:
  "done_is_last ls \<Longrightarrow> batch_events parse ls = concat (map (line_event parse) ls)"
proof (induction ls)
  case Nil
  then show ?case by simp
next
  case (Cons l ls)
  show ?case
  proof (cases "is_done_line l")
    case True
    with Cons.prems have q: "list_all (\<lambda>x. \<not> is_data_line x) ls" by simp
    then have "concat (map (line_event parse) ls) = []"
      by (induction ls) (auto simp: line_event_def is_data_line_def)
    with True show ?thesis
      by (simp add: line_event_def is_done_line_def is_data_line_def)
  next
    case False
    with Cons show ?thesis
      by (auto simp: line_event_def is_done_line_def is_data_line_def Let_def
            split: option.splits)
  qed
qed

lemma unlines_frame_lines: "unlines (frame_lines payloads) = concat (map sse payloads)"
  by (induction payloads) (simp_all add: unlines_def frame_lines_def sse_def)

lemma relay_line_outbound:
  "relay_line parse stringify tid line = map (frame stringify) (line_outbound parse tid line)"
  by (simp add: relay_line_def line_outbound_def relayed_def split: option.splits)

lemma split_lines_sse:
  assumes "NL \<notin> set payload"
  shows "split_lines (sse payload @ r) = (''data: '' @ payload) # [] # split_lines r"
proof -
  have n: "NL \<notin> set (''data: '' @ payload)" using assms by simp
  have "sse payload @ r = (''data: '' @ payload) @ (NL # NL # r)"
    by (simp add: sse_def)
  then show ?thesis
    using split_lines_append_line [OF n, of "NL # NL # r"] by simp
qed

lemma trim_done: "trim ''[DONE]'' = ''[DONE]''"
  by (simp add: trim_def is_space_def)

lemma malformed_lines:
  assumes "NL \<notin> set p1" and "NL \<notin> set g" and "NL \<notin> set p2"
    and "trim p1 \<noteq> ''[DONE]''" and "parse (trim p1) = Some e1"
    and "trim g \<noteq> ''[DONE]''" and "parse (trim g) = None"
    and "trim p2 \<noteq> ''[DONE]''" and "parse (trim p2) = Some e2"
    and "concat chunks = sse p1 @ sse g @ sse p2 @ done_frame"
  shows "stream_events parse [] chunks = [e1, e2]"
proof -
  let ?ls = "[''data: '' @ p1, [], ''data: '' @ g, [], ''data: '' @ p2, [], ''data: [DONE]'', []]"
  have "split_lines (concat chunks) = ?ls @ [] # []"
    using assms(10) split_lines_sse [OF assms(1)] split_lines_sse [OF assms(2)]
      split_lines_sse [OF assms(3)] split_lines_sse [of "''[DONE]''" "[]"]
    by (simp add: done_frame_def)
  then have l: "fst (feed_all [] chunks) = ?ls"
    using feed_all_lines [of "[]" chunks] by simp
  have d: "done_is_last ?ls"
    using assms(4,6,8) by (simp add: is_done_line_def is_data_line_def startsWith_def trim_done)
  have "batch_events parse ?ls = [e1, e2]"
    using assms(4-9) by (simp add: startsWith_def trim_done)
  with stream_events_batch [of "[]" chunks parse] l d show ?thesis by simp
qed

lemma relay_skips_malformed:
  assumes "NL \<notin> set u1" and "NL \<notin> set g" and "NL \<notin> set u2"
    and "uparse u1 = Some (upstream_content c1)" and "uparse g = None"
    and "uparse u2 = Some (upstream_content c2)"
    and "concat uchunks = sse u1 @ sse g @ sse u2"
  shows "relay_stream uparse stringify mid tid (Some (uchunks, EndOfStream)) =
           [frame stringify (wire (Start mid)), frame stringify (wire (TextStart tid)),
            frame stringify (wire (TextDelta tid c1)),
            frame stringify (wire (TextDelta tid c2)),
            frame stringify (wire (TextEnd tid)), done_frame]"
proof -
  let ?ls = "[''data: '' @ u1, [], ''data: '' @ g, [], ''data: '' @ u2, []]"
  have "split_lines (concat uchunks) = ?ls @ [] # []"
    using assms(7) split_lines_sse [OF assms(1)] split_lines_sse [OF assms(2)]
      split_lines_sse [of u2 "[]", OF assms(3)]
    by simp
  then have l: "fst (feed_all [] uchunks) = ?ls"
    using feed_all_lines [of "[]" uchunks] by simp
  have "concat (map (relay_line uparse stringify tid) ?ls) =
          [frame stringify (wire (TextDelta tid c1)), frame stringify (wire (TextDelta tid c2))]"
    using assms(4-6)
    by (simp add: relay_line_def startsWith_def upstream_content_def empty_obj_def)
  then show ?thesis
    by (simp add: relay_stream_def relay_loop_lines l)
qed

section \<open>One call of sendMessage\<close>

lemma try_block_stream:
  assumes "ok code" and "messages st \<noteq> []"
  shows "\<exists>st'. read_loop parse [] chunks st = Inr st'
           \<and> apply_events (stream_events parse [] chunks) st = Inr st'
           \<and> try_block parse (Response code (Some (chunks, ending))) st =
               Inr (case ending of EndOfStream \<Rightarrow> None | ReadAbort \<Rightarrow> Some AbortError
                      | ReadFail \<Rightarrow> Some OtherError, st')"
proof -
  from apply_events_frame [OF assms(2), of "stream_events parse [] chunks"]
  obtain st' where "apply_events (stream_events parse [] chunks) st = Inr st'" by blast
  then show ?thesis
    using assms(1) by (cases ending) (simp_all add: try_block_def read_loop_events)
qed

lemma sendMessage_stream:
  assumes "trim messageText \<noteq> []" and "\<not> isLoading st" and "cfg \<noteq> ConfigCorrupt"
    and "ok code"
  shows "\<exists>st1 st2. sendMessage_begin clk messageText st = Some st1
           \<and> messages st1 \<noteq> [] \<and> role (last (messages st1)) = Assistant
           \<and> content (last (messages st1)) = [] \<and> thinking (last (messages st1)) = Some []
           \<and> read_loop parse [] chunks st1 = Inr st2
           \<and> apply_events (stream_events parse [] chunks) st1 = Inr st2
           \<and> messages st2 \<noteq> [] \<and> role (last (messages st2)) = Assistant
           \<and> sendMessage parse clk cfg (Response code (Some (chunks, ending))) messageText st =
               (case catch_block (case ending of EndOfStream \<Rightarrow> None
                                   | ReadAbort \<Rightarrow> Some AbortError
                                   | ReadFail \<Rightarrow> Some OtherError) st2 of
                  Inl e \<Rightarrow> Inl (UpdaterError e)
                | Inr (out, st3) \<Rightarrow> Inr (out, finally_block st3))"
proof -
  obtain st1 where b: "sendMessage_begin clk messageText st = Some st1"
    using assms(1,2) by (simp add: sendMessage_begin_def Let_def)
  note bs = begin_state [OF b]
  from try_block_stream [OF assms(4) bs(1), of parse chunks ending]
  obtain st2 where
    t: "read_loop parse [] chunks st1 = Inr st2"
       "apply_events (stream_events parse [] chunks) st1 = Inr st2"
       "try_block parse (Response code (Some (chunks, ending))) st1 =
          Inr (case ending of EndOfStream \<Rightarrow> None | ReadAbort \<Rightarrow> Some AbortError
                 | ReadFail \<Rightarrow> Some OtherError, st2)"
    by blast
  from apply_events_frame [OF bs(1), of "stream_events parse [] chunks"] t(2) bs(2)
  have f: "messages st2 \<noteq> []" "role (last (messages st2)) = Assistant" by auto
  show ?thesis
    using b bs(1-4) t f assms(3) by (simp add: sendMessage_def)
qed

lemma completed_content:
  assumes "trim messageText \<noteq> []" and "\<not> isLoading st" and "cfg \<noteq> ConfigCorrupt"
    and "ok code"
    and "stream_events parse [] chunks = map wire evs"
  shows "\<exists>st'. sendMessage parse clk cfg (Response code (Some (chunks, EndOfStream)))
                 messageText st = Inr (Completed, st')
           \<and> content (last (messages st')) = concat (deltas evs)
           \<and> thinking (last (messages st')) = Some (concat (thoughts evs))"
proof -
  from sendMessage_stream [OF assms(1-4), of clk parse chunks EndOfStream]
  obtain st1 st2 where
    s: "messages st1 \<noteq> []" "role (last (messages st1)) = Assistant"
       "content (last (messages st1)) = []" "thinking (last (messages st1)) = Some []"
       "apply_events (stream_events parse [] chunks) st1 = Inr st2"
       "sendMessage parse clk cfg (Response code (Some (chunks, EndOfStream))) messageText st =
          Inr (Completed, finally_block st2)"
    by (auto simp: catch_block_def)
  from apply_wire_effect [OF s(1,2), of evs] s(3,4,5) assms(5)
  have "content (last (messages st2)) = concat (deltas evs)"
       "thinking (last (messages st2)) = Some (concat (thoughts evs))"
    by auto
  with s(6) show ?thesis by (simp add: finally_block_def)
qed

lemma updater_last_only:
  assumes "prev \<noteq> []"
  shows "\<exists>ms. append_content parsed prev = Inr ms \<and> length ms = length prev
           \<and> (role (last prev) \<noteq> Assistant \<longrightarrow> ms = prev)"
    and "\<exists>ms. set_sources parsed prev = Inr ms \<and> length ms = length prev
           \<and> (role (last prev) \<noteq> Assistant \<longrightarrow> ms = prev)"
    and "\<exists>ms. append_thinking parsed prev = Inr ms \<and> length ms = length prev
           \<and> (role (last prev) \<noteq> Assistant \<longrightarrow> ms = prev)"
  using assms
  by (simp_all add: append_content_def set_sources_def append_thinking_def Let_def)

lemma handle_parsed_last_only:
  assumes "messages st \<noteq> []"
  shows "\<exists>st'. handle_parsed parsed st = Inr st'
           \<and> length (messages st') = length (messages st)
           \<and> (role (last (messages st)) \<noteq> Assistant \<longrightarrow> messages st' = messages st)"
proof -
  obtain m1 where m1: "append_content parsed (messages st) = Inr m1"
      "length m1 = length (messages st)"
      "role (last (messages st)) \<noteq> Assistant \<longrightarrow> m1 = messages st"
    using updater_last_only(1) [OF assms] by blast
  obtain m2 where m2: "set_sources parsed (messages st) = Inr m2"
      "length m2 = length (messages st)"
      "role (last (messages st)) \<noteq> Assistant \<longrightarrow> m2 = messages st"
    using updater_last_only(2) [OF assms] by blast
  obtain m3 where m3: "append_thinking parsed (messages st) = Inr m3"
      "length m3 = length (messages st)"
      "role (last (messages st)) \<noteq> Assistant \<longrightarrow> m3 = messages st"
    using updater_last_only(3) [OF assms] by blast
  show ?thesis
    unfolding handle_parsed_def setMessages_def
    using m1 m2 m3 by simp
qed

text \<open>On an empty list every updater throws, and no message comes into being.\<close>

lemma updater_on_empty_list:
  "append_content parsed [] = Inl TypeError" "set_sources parsed [] = Inl TypeError"
  "append_thinking parsed [] = Inl TypeError" "set_failure [] = Inl TypeError"
  by (simp_all add: append_content_def set_sources_def append_thinking_def set_failure_def)

lemma sendMessage_begin_current:
  "sendMessage_begin clk messageText st = sendMessage_begin_in st clk messageText st"
  by (simp add: sendMessage_begin_def sendMessage_begin_in_def)

lemma captured_guard:
  "isLoading rendered \<Longrightarrow> sendMessage_begin_in rendered clk messageText st = None"
  by (simp add: sendMessage_begin_in_def)

section \<open>Facts about the sample data\<close>

lemmas sample_defs =
  sample_question_def sample_clock_def sample_state_def initial_state_def
  sample_parse_def sample_frames_def sample_chunks_def par_chunks_def sse_def
  hel_payload_def lo_payload_def garbage_payload_def hello_chunks_def done_frame_def

lemmas consumer_defs =
  feed_def startsWith_def trim_def is_space_def handle_parsed_def setMessages_def
  append_content_def set_sources_def append_thinking_def set_failure_def
  empty_obj_def js_or_def or_empty_def Let_def

lemma sample_question_not_blank: "trim sample_question \<noteq> []"
  by (simp add: sample_question_def trim_def is_space_def)

lemma initial_not_loading: "\<not> isLoading (initial_state saved)"
  by (simp add: initial_state_def)

lemma ok_200: "ok 200"
  by (simp add: ok_def)

lemma sample_begin:
  "sendMessage_begin sample_clock sample_question (initial_state []) = Some sample_state"
  using sample_question_not_blank
  by (simp add: sendMessage_begin_def sample_clock_def sample_state_def initial_state_def)

lemma sample_stream:
  "stream_events sample_parse [] sample_chunks =
     map wire [Thinking ''hm'', TextDelta ''s1'' ''Hel'', Status ''searching'',
       TextDelta ''s1'' ''lo'']"
  by (simp add: sample_defs feed_def startsWith_def trim_def is_space_def Let_def)

lemma par_stream:
  "stream_events sample_parse [] par_chunks = map wire [TextDelta ''s1'' ''Par'']"
  by (simp add: sample_defs feed_def startsWith_def trim_def is_space_def Let_def)

lemma sample_text_lines: "concat sample_chunks = unlines sample_lines @ []"
  by (simp add: sample_chunks_def sample_lines_def frame_lines_def unlines_def
        hm_payload_def hel_payload_def searching_payload_def lo_payload_def)

lemma upstream_text_lines: "concat upstream_chunks = unlines upstream_lines @ []"
  by (simp add: upstream_chunks_def upstream_lines_def unlines_frame_lines)

section \<open>The claims\<close>

text \<open>
  C1. Whatever events the consumer decodes during one exchange that runs to the end
  of the stream, the content of the assistant message is the concatenation of the
  deltas of the text-delta events in arrival order, and its thinking field is the
  concatenation of the contents of the thinking events in arrival order. This holds
  for every list of events of the wire protocol, so for every interleaving of
  Thinking, TextDelta and Status events. A Status event leaves the message list as it
  is, in every state.
\<close>

theorem consumer_content_is_concatenation:
  assumes "trim messageText \<noteq> []" and "\<not> isLoading st" and "cfg \<noteq> ConfigCorrupt"
    and "ok code"
    and "stream_events parse [] chunks = map wire evs"
  shows "(\<exists>st'. sendMessage parse clk cfg (Response code (Some (chunks, EndOfStream)))
                 messageText st = Inr (Completed, st')
           \<and> content (last (messages st')) = concat (deltas evs)
           \<and> thinking (last (messages st')) = Some (concat (thoughts evs)))
         \<and> (\<forall>s st0. \<exists>st1. handle_parsed (wire (Status s)) st0 = Inr st1
               \<and> messages st1 = messages st0)"
proof (intro conjI)
  show "\<exists>st'. sendMessage parse clk cfg (Response code (Some (chunks, EndOfStream)))
                 messageText st = Inr (Completed, st')
           \<and> content (last (messages st')) = concat (deltas evs)
           \<and> thinking (last (messages st')) = Some (concat (thoughts evs))"
    by (rule completed_content [OF assms])
  show "\<forall>s st0. \<exists>st1. handle_parsed (wire (Status s)) st0 = Inr st1
           \<and> messages st1 = messages st0"
    by (simp add: handle_parsed_def empty_obj_def)
qed

text \<open>
  An instance of C1: a thinking event, two text-delta events and a status event
  between them, in a stream cut into three chunks.
\<close>

theorem consumer_content_is_concatenation_witness:
  "trim sample_question \<noteq> [] \<and> \<not> isLoading (initial_state []) \<and> ok 200
   \<and> stream_events sample_parse [] sample_chunks =
       map wire [Thinking ''hm'', TextDelta ''s1'' ''Hel'', Status ''searching'',
         TextDelta ''s1'' ''lo'']
   \<and> (\<exists>st'. sendMessage sample_parse sample_clock ConfigAbsent
               (Response 200 (Some (sample_chunks, EndOfStream))) sample_question
               (initial_state []) = Inr (Completed, st')
          \<and> content (last (messages st')) = ''Hello''
          \<and> thinking (last (messages st')) = Some ''hm'')"
proof -
  have c: "ConfigAbsent \<noteq> ConfigCorrupt" by simp
  show ?thesis
    using consumer_content_is_concatenation
      [where clk = sample_clock,
       OF sample_question_not_blank initial_not_loading c ok_200 sample_stream]
      sample_question_not_blank initial_not_loading ok_200 sample_stream
    by simp
qed

text \<open>
  C2 as stated fails. The frame carrying \<^verbatim>\<open>Par\<close> has been applied, so the assistant
  message holds \<^verbatim>\<open>Par\<close>; then the read fails. The call ends in the error branch and
  the content is the failure text, not \<^verbatim>\<open>Par\<close>.
\<close>

theorem read_error_discards_partial_content:
  "last_content (read_loop sample_parse [] par_chunks sample_state) = Some ''Par''
   \<and> final_outcome (sendMessage sample_parse sample_clock ConfigAbsent
        (Response 200 (Some (par_chunks, ReadFail))) sample_question (initial_state []))
       = Some Errored
   \<and> final_content (sendMessage sample_parse sample_clock ConfigAbsent
        (Response 200 (Some (par_chunks, ReadFail))) sample_question (initial_state []))
       = Some failure_text
   \<and> failure_text \<noteq> ''Par''"
proof -
  have r: "read_loop sample_parse [] par_chunks sample_state =
             Inr (sample_state\<lparr>messages :=
               [\<lparr>msg_id = toString 1700000000000, role = User, content = sample_question,
                 thinking = None, sources = None, timestamp = 1700000000000\<rparr>,
                \<lparr>msg_id = toString 1700000000001, role = Assistant, content = ''Par'',
                 thinking = Some [], sources = None, timestamp = 1700000000000\<rparr>]\<rparr>)"
    by (simp add: read_loop_events par_stream consumer_defs sample_state_def)
  have s: "sendMessage sample_parse sample_clock ConfigAbsent
        (Response 200 (Some (par_chunks, ReadFail))) sample_question (initial_state [])
      = Inr (Errored, finally_block (sample_state\<lparr>messages :=
               [\<lparr>msg_id = toString 1700000000000, role = User, content = sample_question,
                 thinking = None, sources = None, timestamp = 1700000000000\<rparr>,
                \<lparr>msg_id = toString 1700000000001, role = Assistant, content = failure_text,
                 thinking = Some [], sources = None, timestamp = 1700000000000\<rparr>]\<rparr>))"
    by (simp add: r sendMessage_def sample_begin try_block_def ok_def catch_block_def
          setMessages_def set_failure_def Let_def)
  show ?thesis
    by (simp add: r s last_content_def final_outcome_def final_content_def
          finally_block_def failure_text_def)
qed

text \<open>
  C2, as amended. When the read loop ends with an error that is not an abort, the
  content of the trailing assistant message is replaced by the fixed failure text,
  whatever had streamed before; the other messages are kept, the loading flag and the
  workflow status are cleared.
\<close>

theorem read_error_overwrites_content:
  assumes "trim messageText \<noteq> []" and "\<not> isLoading st" and "cfg \<noteq> ConfigCorrupt"
    and "ok code"
  shows "\<exists>st1 st2 st'. sendMessage_begin clk messageText st = Some st1
           \<and> read_loop parse [] chunks st1 = Inr st2
           \<and> sendMessage parse clk cfg (Response code (Some (chunks, ReadFail))) messageText st
               = Inr (Errored, st')
           \<and> content (last (messages st')) = failure_text
           \<and> butlast (messages st') = butlast (messages st2)
           \<and> \<not> isLoading st' \<and> currentStatus st' = None"
proof -
  from sendMessage_stream [OF assms(1-4), of clk parse chunks ReadFail]
  obtain st1 st2 where
    s: "sendMessage_begin clk messageText st = Some st1"
       "read_loop parse [] chunks st1 = Inr st2"
       "messages st2 \<noteq> []" "role (last (messages st2)) = Assistant"
       "sendMessage parse clk cfg (Response code (Some (chunks, ReadFail))) messageText st =
          (case catch_block (Some OtherError) st2 of
             Inl e \<Rightarrow> Inl (UpdaterError e)
           | Inr (out, st3) \<Rightarrow> Inr (out, finally_block st3))"
    by auto
  have "catch_block (Some OtherError) st2 =
          Inr (Errored, st2\<lparr>messages := butlast (messages st2)
                 @ [(last (messages st2))\<lparr>content := failure_text\<rparr>]\<rparr>)"
    using s(3,4) by (simp add: catch_block_def setMessages_def set_failure_def Let_def)
  with s show ?thesis by (simp add: finally_block_def)
qed

text \<open>
  An instance of the amended C2, on the same stream.
\<close>

theorem read_error_overwrites_content_witness:
  "trim sample_question \<noteq> [] \<and> \<not> isLoading (initial_state []) \<and> ok 200
   \<and> (\<exists>st'. sendMessage sample_parse sample_clock ConfigAbsent
               (Response 200 (Some (par_chunks, ReadFail))) sample_question
               (initial_state []) = Inr (Errored, st')
          \<and> content (last (messages st')) = failure_text)"
proof -
  have c: "ConfigAbsent \<noteq> ConfigCorrupt" by simp
  show ?thesis
    using read_error_overwrites_content
      [where clk = sample_clock and parse = sample_parse and chunks = par_chunks,
       OF sample_question_not_blank initial_not_loading c ok_200]
      sample_question_not_blank initial_not_loading ok_200
    by auto
qed

text \<open>
  C3 as stated fails in its last part. A frame ends with two line feeds; the chunk
  \<open>half_frame\<close> is the frame carrying \<^verbatim>\<open>Par\<close> short of its second line feed, so the
  frame is not fully received. The consumer hands on its data line, decodes the
  text-delta event and appends \<^verbatim>\<open>Par\<close> all the same.
\<close>

theorem frame_emitted_before_its_second_line_feed:
  "half_frame @ [NL] = sse par_payload
   \<and> feed_all [] [half_frame] = ([''data: '' @ par_payload], [])
   \<and> stream_events sample_parse [] [half_frame] = [wire (TextDelta ''s1'' ''Par'')]
   \<and> last_content (read_loop sample_parse [] [half_frame] sample_state) = Some ''Par''"
proof -
  have e: "stream_events sample_parse [] [half_frame] = [wire (TextDelta ''s1'' ''Par'')]"
    by (simp add: half_frame_def par_payload_def sample_parse_def sample_frames_def
          feed_def startsWith_def trim_def is_space_def Let_def)
  have f: "feed_all [] [half_frame] = ([''data: '' @ par_payload], [])"
    by (simp add: half_frame_def par_payload_def feed_def Let_def)
  have h: "half_frame @ [NL] = sse par_payload"
    by (simp add: half_frame_def sse_def)
  have c: "last_content (apply_events [wire (TextDelta ''s1'' ''Par'')] sample_state)
             = Some ''Par''"
    by (simp add: last_content_def handle_parsed_def setMessages_def append_content_def
          empty_obj_def js_or_def or_empty_def Let_def sample_state_def)
  show ?thesis
    using h f e c by (simp add: read_loop_events)
qed

text \<open>
  C3, as amended. Take any text made of complete lines followed by a rest without a
  line feed, cut into chunks in any way. Fed chunk by chunk or whole, the reassembly
  buffer hands on exactly the lines, each once and in order, and keeps the rest: a line
  is handed on when its line feed has arrived and not before. The relay enqueues, in
  order, the frames of the outbound objects of each line. When no data line follows
  the first \<^verbatim>\<open>[DONE]\<close> line, the consumer decodes, in order, the events of each line,
  and its state is that of applying them. The text of a sequence of frames is such a
  text: its lines are the data line and the empty line of each frame.
\<close>

theorem chunked_feeding_emits_each_line_once:
  assumes "list_all (\<lambda>l. NL \<notin> set l) ls" and "NL \<notin> set rest"
    and "concat chunks = unlines ls @ rest"
  shows "feed_all [] chunks = (ls, rest)
     \<and> feed_all [] [concat chunks] = (ls, rest)
     \<and> relay_loop parse stringify tid [] chunks
         = map (frame stringify) (concat (map (line_outbound parse tid) ls))
     \<and> relay_loop parse stringify tid [] [concat chunks]
         = map (frame stringify) (concat (map (line_outbound parse tid) ls))
     \<and> (done_is_last ls \<longrightarrow>
           stream_events parse [] chunks = concat (map (line_event parse) ls)
         \<and> stream_events parse [] [concat chunks] = concat (map (line_event parse) ls)
         \<and> read_loop parse [] chunks st = apply_events (concat (map (line_event parse) ls)) st
         \<and> read_loop parse [] [concat chunks] st
             = apply_events (concat (map (line_event parse) ls)) st)
     \<and> unlines (frame_lines payloads) = concat (map sse payloads)"
proof -
  have a: "feed_all [] chunks = (ls, rest)"
    by (rule feed_all_unlines [OF assms])
  have c: "concat [concat chunks] = unlines ls @ rest" using assms(3) by simp
  have b: "feed_all [] [concat chunks] = (ls, rest)"
    by (rule feed_all_unlines [OF assms(1,2) c])
  have f: "unlines (frame_lines payloads) = concat (map sse payloads)"
    by (rule unlines_frame_lines)
  have e: "stream_events parse [] cs = concat (map (line_event parse) ls)"
    if "done_is_last ls" and "feed_all [] cs = (ls, rest)" for cs
    using stream_events_batch [of "[]" cs parse] that by (simp add: batch_events_lines)
  have r: "concat (map (relay_line parse stringify tid) ls)
             = map (frame stringify) (concat (map (line_outbound parse tid) ls))"
    by (induction ls) (simp_all add: relay_line_outbound)
  show ?thesis
    using a b f r e [OF _ a] e [OF _ b]
    by (simp add: relay_loop_lines read_loop_events)
qed

text \<open>
  An instance of the amended C3: the sample stream of five frames read in three
  chunks, with its ten lines and its four events, and the sample input of the relay
  read in two chunks, with the two frames sent on.
\<close>

theorem chunked_feeding_emits_each_line_once_witness:
  "list_all (\<lambda>l. NL \<notin> set l) sample_lines \<and> done_is_last sample_lines
   \<and> concat sample_chunks = unlines sample_lines @ []
   \<and> sample_lines = [''data: '' @ hm_payload, [], ''data: '' @ hel_payload, [],
        ''data: '' @ searching_payload, [], ''data: '' @ lo_payload, [],
        ''data: [DONE]'', []]
   \<and> feed_all [] sample_chunks = (sample_lines, [])
   \<and> stream_events sample_parse [] sample_chunks =
        [wire (Thinking ''hm''), wire (TextDelta ''s1'' ''Hel''), wire (Status ''searching''),
         wire (TextDelta ''s1'' ''lo'')]
   \<and> stream_events sample_parse [] [concat sample_chunks] =
        [wire (Thinking ''hm''), wire (TextDelta ''s1'' ''Hel''), wire (Status ''searching''),
         wire (TextDelta ''s1'' ''lo'')]
   \<and> list_all (\<lambda>l. NL \<notin> set l) upstream_lines
   \<and> concat upstream_chunks = unlines upstream_lines @ []
   \<and> relay_loop sample_parse sample_stringify ''s1'' [] upstream_chunks =
        [frame sample_stringify (wire (TextDelta ''s1'' ''Hel'')),
         frame sample_stringify (wire (TextDelta ''s1'' ''lo''))]"
proof -
  have l: "sample_lines = [''data: '' @ hm_payload, [], ''data: '' @ hel_payload, [],
        ''data: '' @ searching_payload, [], ''data: '' @ lo_payload, [],
        ''data: [DONE]'', []]"
    by (simp add: sample_lines_def frame_lines_def)
  have n: "list_all (\<lambda>l. NL \<notin> set l) sample_lines"
    by (simp add: l hm_payload_def hel_payload_def searching_payload_def lo_payload_def)
  have d: "done_is_last sample_lines"
    by (simp add: l hm_payload_def hel_payload_def searching_payload_def lo_payload_def
          is_done_line_def is_data_line_def startsWith_def trim_def is_space_def)
  have ev: "concat (map (line_event sample_parse) sample_lines) =
        [wire (Thinking ''hm''), wire (TextDelta ''s1'' ''Hel''), wire (Status ''searching''),
         wire (TextDelta ''s1'' ''lo'')]"
    by (simp add: l hm_payload_def hel_payload_def searching_payload_def lo_payload_def
          line_event_def startsWith_def trim_def is_space_def sample_parse_def
          sample_frames_def)
  have m: "list_all (\<lambda>l. NL \<notin> set l) upstream_lines"
    by (simp add: upstream_lines_def frame_lines_def upstream_hel_def upstream_lo_def
          garbage_payload_def)
  have ob: "concat (map (line_outbound sample_parse ''s1'') upstream_lines) =
        [wire (TextDelta ''s1'' ''Hel''), wire (TextDelta ''s1'' ''lo'')]"
    by (simp add: upstream_lines_def frame_lines_def upstream_hel_def upstream_lo_def
          garbage_payload_def line_outbound_def relayed_def startsWith_def sample_parse_def
          sample_frames_def upstream_content_def empty_obj_def)
  have e: "NL \<notin> set []" by simp
  note t1 = chunked_feeding_emits_each_line_once
      [where parse = sample_parse and st = sample_state, OF n e sample_text_lines]
  note t2 = chunked_feeding_emits_each_line_once
      [where parse = sample_parse and stringify = sample_stringify and tid = "''s1''",
       OF m e upstream_text_lines]
  have a: "feed_all [] sample_chunks = (sample_lines, [])"
    using t1 by blast
  have b: "stream_events sample_parse [] sample_chunks =
        [wire (Thinking ''hm''), wire (TextDelta ''s1'' ''Hel''), wire (Status ''searching''),
         wire (TextDelta ''s1'' ''lo'')]"
    using t1 d unfolding ev by blast
  have c: "stream_events sample_parse [] [concat sample_chunks] =
        [wire (Thinking ''hm''), wire (TextDelta ''s1'' ''Hel''), wire (Status ''searching''),
         wire (TextDelta ''s1'' ''lo'')]"
    using t1 d unfolding ev by blast
  have r: "relay_loop sample_parse sample_stringify ''s1'' [] upstream_chunks =
        map (frame sample_stringify) [wire (TextDelta ''s1'' ''Hel''), wire (TextDelta ''s1'' ''lo'')]"
    using t2 unfolding ob by blast
  have r': "relay_loop sample_parse sample_stringify ''s1'' [] upstream_chunks =
        [frame sample_stringify (wire (TextDelta ''s1'' ''Hel'')),
         frame sample_stringify (wire (TextDelta ''s1'' ''lo''))]"
    unfolding r by (simp only: list.map)
  from n d sample_text_lines l a b c m upstream_text_lines r'
  show ?thesis by blast
qed

text \<open>
  C4 as stated fails. The backend answers 503 to an accepted request: the relay calls
  it once and answers with the JSON error response, which has no outbound stream, so
  no frame of any kind is sent.
\<close>

theorem failed_upstream_emits_no_event:
  "POST sample_parse sample_stringify sample_ids (Some sample_request) (UpResponse 503 None)
     = (error_response, 1)
   \<and> outbound_frames error_response = None
   \<and> body error_response = JsonError ''Failed to process chat request''"
  by (simp add: POST_def sample_request_def sample_question_def or_empty_def ok_def
        outbound_frames_def error_response_def)

text \<open>
  C4, as amended. When the one connection attempt to the backend fails (the fetch
  rejects, or the status is not a success), the relay answers with the HTTP status 500
  and a JSON error body. It opens no outbound stream and enqueues no frame. The
  backend is called at most once, and exactly once when the request passed the checks.
\<close>

theorem failed_upstream_gives_http_500:
  assumes "upstream_failed up"
  shows "fst (POST parse stringify ids req up) = error_response
         \<and> outbound_frames (fst (POST parse stringify ids req up)) = None
         \<and> status (fst (POST parse stringify ids req up)) = 500
         \<and> snd (POST parse stringify ids req up) \<le> 1
         \<and> (request_accepted req \<longrightarrow> snd (POST parse stringify ids req up) = 1)"
proof -
  have "POST parse stringify ids req up = (error_response, if request_accepted req then 1 else 0)"
    using assms
    by (cases up) (auto simp: POST_def request_accepted_def Let_def split: option.splits)
  then show ?thesis
    by (simp add: outbound_frames_def error_response_def)
qed

text \<open>
  An instance of the amended C4, on the same input.
\<close>

theorem failed_upstream_gives_http_500_witness:
  "upstream_failed (UpResponse 503 None) \<and> request_accepted (Some sample_request)
   \<and> fst (POST sample_parse sample_stringify sample_ids (Some sample_request)
        (UpResponse 503 None)) = error_response
   \<and> snd (POST sample_parse sample_stringify sample_ids (Some sample_request)
        (UpResponse 503 None)) = 1"
proof -
  have u: "upstream_failed (UpResponse 503 None)" by (simp add: ok_def)
  have a: "request_accepted (Some sample_request)"
    by (simp add: request_accepted_def sample_request_def sample_question_def or_empty_def)
  show ?thesis
    using failed_upstream_gives_http_500
      [OF u, of sample_parse sample_stringify sample_ids "Some sample_request"] u a
    by simp
qed

text \<open>
  C5 as stated fails. After text-start, a delta \<^verbatim>\<open>Par\<close> and text-end of the span
  \<^verbatim>\<open>s1\<close>, the content is \<^verbatim>\<open>Par\<close>; a late delta \<^verbatim>\<open>X\<close> for the closed span makes it
  \<^verbatim>\<open>ParX\<close>. A delta for a span that was never started is appended as well.
\<close>

theorem late_text_delta_is_appended:
  "last_content (apply_events
      (map wire [TextStart ''s1'', TextDelta ''s1'' ''Par'', TextEnd ''s1'']) sample_state)
     = Some ''Par''
   \<and> last_content (apply_events
      (map wire [TextStart ''s1'', TextDelta ''s1'' ''Par'', TextEnd ''s1'',
         TextDelta ''s1'' ''X'']) sample_state)
     = Some ''ParX''
   \<and> last_content (apply_events (map wire [TextDelta ''s9'' ''X'']) sample_state)
     = Some ''X''"
  by (simp add: consumer_defs sample_state_def last_content_def)

text \<open>
  C5, as amended. The consumer keeps no record of spans: a text-delta event appends
  its delta to the trailing assistant message whatever its id is and whatever events
  came before it, text-start and text-end included.
\<close>

theorem text_delta_appended_whatever_its_span:
  assumes "messages st \<noteq> []" and "role (last (messages st)) = Assistant"
  shows "\<exists>st1 st2. apply_events (map wire evs) st = Inr st1
           \<and> handle_parsed (wire (TextDelta tid d)) st1 = Inr st2
           \<and> content (last (messages st2)) = content (last (messages st1)) @ d"
proof -
  from apply_wire_effect [OF assms, of evs] obtain st1 where
    a: "apply_events (map wire evs) st = Inr st1" "messages st1 \<noteq> []"
       "role (last (messages st1)) = Assistant"
    by blast
  from handle_wire_effect [OF a(2,3), of "TextDelta tid d"] a(1)
  show ?thesis by auto
qed

text \<open>
  An instance of the amended C5, on the same events.
\<close>

theorem text_delta_appended_whatever_its_span_witness:
  "messages sample_state \<noteq> [] \<and> role (last (messages sample_state)) = Assistant
   \<and> (\<exists>st1 st2.
        apply_events (map wire [TextStart ''s1'', TextDelta ''s1'' ''Par'', TextEnd ''s1''])
          sample_state = Inr st1
        \<and> handle_parsed (wire (TextDelta ''s1'' ''X'')) st1 = Inr st2
        \<and> content (last (messages st2)) = content (last (messages st1)) @ ''X'')"
proof -
  have n: "messages sample_state \<noteq> []" by (simp add: sample_state_def)
  have r: "role (last (messages sample_state)) = Assistant" by (simp add: sample_state_def)
  show ?thesis
    using text_delta_appended_whatever_its_span
      [OF n r, of "[TextStart ''s1'', TextDelta ''s1'' ''Par'', TextEnd ''s1'']" "''s1''" "''X''"]
      n r
    by simp
qed

text \<open>
  C6. A frame whose payload does not parse is skipped and the stream goes on. For
  the stream of a text-delta frame carrying \<^verbatim>\<open>Hel\<close>, a frame that does not parse, a
  text-delta frame carrying \<^verbatim>\<open>lo\<close> and the Done frame, however it is cut into
  chunks, the call runs to its end and the content of the assistant message is
  \<^verbatim>\<open>Hello\<close>. The relay does the same with its input: a backend line that does not
  parse is dropped, and the frames before and after it are forwarded, followed by
  text-end and Done.
\<close>

theorem malformed_frame_is_skipped:
  assumes "trim messageText \<noteq> []" and "\<not> isLoading st" and "cfg \<noteq> ConfigCorrupt"
    and "ok code"
    and "NL \<notin> set p1" and "NL \<notin> set g" and "NL \<notin> set p2"
    and "trim p1 \<noteq> ''[DONE]''" and "parse (trim p1) = Some (wire (TextDelta tid ''Hel''))"
    and "trim g \<noteq> ''[DONE]''" and "parse (trim g) = None"
    and "trim p2 \<noteq> ''[DONE]''" and "parse (trim p2) = Some (wire (TextDelta tid ''lo''))"
    and "concat chunks = sse p1 @ sse g @ sse p2 @ done_frame"
    and "NL \<notin> set u1" and "NL \<notin> set u2"
    and "parse u1 = Some (upstream_content ''Hel'')" and "parse g = None"
    and "parse u2 = Some (upstream_content ''lo'')"
    and "concat uchunks = sse u1 @ sse g @ sse u2"
  shows "(\<exists>st'. sendMessage parse clk cfg (Response code (Some (chunks, EndOfStream)))
                 messageText st = Inr (Completed, st')
           \<and> content (last (messages st')) = ''Hello'')
         \<and> relay_stream parse stringify mid tid (Some (uchunks, EndOfStream)) =
             [frame stringify (wire (Start mid)), frame stringify (wire (TextStart tid)),
              frame stringify (wire (TextDelta tid ''Hel'')),
              frame stringify (wire (TextDelta tid ''lo'')),
              frame stringify (wire (TextEnd tid)), done_frame]"
proof (intro conjI)
  have "stream_events parse [] chunks = map wire [TextDelta tid ''Hel'', TextDelta tid ''lo'']"
    using malformed_lines [OF assms(5-14)] by simp
  from completed_content [OF assms(1-4) this, of clk]
  show "\<exists>st'. sendMessage parse clk cfg (Response code (Some (chunks, EndOfStream)))
                 messageText st = Inr (Completed, st')
           \<and> content (last (messages st')) = ''Hello''"
    by auto
  show "relay_stream parse stringify mid tid (Some (uchunks, EndOfStream)) =
             [frame stringify (wire (Start mid)), frame stringify (wire (TextStart tid)),
              frame stringify (wire (TextDelta tid ''Hel'')),
              frame stringify (wire (TextDelta tid ''lo'')),
              frame stringify (wire (TextEnd tid)), done_frame]"
    by (rule relay_skips_malformed [OF assms(15) assms(6) assms(16-20)])
qed

text \<open>
  An instance of C6: the frame that does not decode is a truncated JSON text, and both
  streams are cut in the middle of it.
\<close>

theorem malformed_frame_is_skipped_witness:
  "trim garbage_payload \<noteq> ''[DONE]'' \<and> sample_parse (trim garbage_payload) = None
   \<and> sample_parse garbage_payload = None
   \<and> sample_parse (trim hel_payload) = Some (wire (TextDelta ''s1'' ''Hel''))
   \<and> sample_parse (trim lo_payload) = Some (wire (TextDelta ''s1'' ''lo''))
   \<and> sample_parse upstream_hel = Some (upstream_content ''Hel'')
   \<and> sample_parse upstream_lo = Some (upstream_content ''lo'')
   \<and> concat hello_chunks = sse hel_payload @ sse garbage_payload @ sse lo_payload @ done_frame
   \<and> concat upstream_chunks = sse upstream_hel @ sse garbage_payload @ sse upstream_lo
   \<and> (\<exists>st'. sendMessage sample_parse sample_clock ConfigAbsent
               (Response 200 (Some (hello_chunks, EndOfStream))) sample_question
               (initial_state []) = Inr (Completed, st')
          \<and> content (last (messages st')) = ''Hello'')
   \<and> relay_stream sample_parse sample_stringify ''m1'' ''s1''
        (Some (upstream_chunks, EndOfStream)) =
         [frame sample_stringify (wire (Start ''m1'')),
          frame sample_stringify (wire (TextStart ''s1'')),
          frame sample_stringify (wire (TextDelta ''s1'' ''Hel'')),
          frame sample_stringify (wire (TextDelta ''s1'' ''lo'')),
          frame sample_stringify (wire (TextEnd ''s1'')), done_frame]"
proof -
  have c: "ConfigAbsent \<noteq> ConfigCorrupt" by simp
  have n1: "NL \<notin> set hel_payload" by (simp add: hel_payload_def)
  have n2: "NL \<notin> set garbage_payload" by (simp add: garbage_payload_def)
  have n3: "NL \<notin> set lo_payload" by (simp add: lo_payload_def)
  have n4: "NL \<notin> set upstream_hel" by (simp add: upstream_hel_def)
  have n5: "NL \<notin> set upstream_lo" by (simp add: upstream_lo_def)
  have t1: "trim hel_payload \<noteq> ''[DONE]''"
    by (simp add: hel_payload_def trim_def is_space_def)
  have t2: "trim garbage_payload \<noteq> ''[DONE]''"
    by (simp add: garbage_payload_def trim_def is_space_def)
  have t3: "trim lo_payload \<noteq> ''[DONE]''"
    by (simp add: lo_payload_def trim_def is_space_def)
  have p1: "sample_parse (trim hel_payload) = Some (wire (TextDelta ''s1'' ''Hel''))"
    by (simp add: hel_payload_def trim_def is_space_def sample_parse_def sample_frames_def)
  have p2: "sample_parse (trim garbage_payload) = None"
    by (simp add: garbage_payload_def trim_def is_space_def sample_parse_def sample_frames_def)
  have p3: "sample_parse (trim lo_payload) = Some (wire (TextDelta ''s1'' ''lo''))"
    by (simp add: lo_payload_def trim_def is_space_def sample_parse_def sample_frames_def)
  have q1: "sample_parse upstream_hel = Some (upstream_content ''Hel'')"
    by (simp add: upstream_hel_def sample_parse_def sample_frames_def)
  have q2: "sample_parse garbage_payload = None"
    by (simp add: garbage_payload_def sample_parse_def sample_frames_def)
  have q3: "sample_parse upstream_lo = Some (upstream_content ''lo'')"
    by (simp add: upstream_lo_def sample_parse_def sample_frames_def)
  have k: "concat hello_chunks
             = sse hel_payload @ sse garbage_payload @ sse lo_payload @ done_frame"
    by (simp add: hello_chunks_def)
  have u: "concat upstream_chunks = sse upstream_hel @ sse garbage_payload @ sse upstream_lo"
    by (simp add: upstream_chunks_def)
  show ?thesis
    using malformed_frame_is_skipped
      [where clk = sample_clock and stringify = sample_stringify and mid = "''m1''",
       OF sample_question_not_blank initial_not_loading c ok_200 n1 n2 n3 t1 p1 t2 p2 t3 p3 k
          n4 n5 q1 q2 q3 u]
      t2 p1 p2 p3 q1 q2 q3 k u
    by simp
qed



text \<open>
  C8. A sources event sets the sources of the trailing assistant message to the list
  it carries: after two sources events in a row the message holds exactly the second
  list, and its content and the earlier messages are as before.
\<close>

theorem sources_event_replaces:
  assumes "messages st \<noteq> []" and "role (last (messages st)) = Assistant"
  shows "\<exists>st'. apply_events [wire (Sources ss1), wire (Sources ss2)] st = Inr st'
           \<and> sources (last (messages st')) = Some ss2
           \<and> content (last (messages st')) = content (last (messages st))
           \<and> butlast (messages st') = butlast (messages st)"
proof -
  from handle_wire_effect [OF assms, of "Sources ss1"] obtain st1 where
    a: "handle_parsed (wire (Sources ss1)) st = Inr st1" "messages st1 \<noteq> []"
       "role (last (messages st1)) = Assistant"
       "butlast (messages st1) = butlast (messages st)"
       "content (last (messages st1)) = content (last (messages st))"
    by auto
  from handle_wire_effect [OF a(2,3), of "Sources ss2"] obtain st2 where
    b: "handle_parsed (wire (Sources ss2)) st1 = Inr st2"
       "butlast (messages st2) = butlast (messages st1)"
       "content (last (messages st2)) = content (last (messages st1))"
       "sources (last (messages st2)) = Some ss2"
    by auto
  show ?thesis using a b by simp
qed

text \<open>
  An instance of C8: a list of one source, then a list of two.
\<close>

theorem sources_event_replaces_witness:
  "messages sample_state \<noteq> [] \<and> role (last (messages sample_state)) = Assistant
   \<and> (\<exists>st'. apply_events
               [wire (Sources [paris_source]), wire (Sources [paris_source, france_source])]
               sample_state = Inr st'
          \<and> sources (last (messages st')) = Some [paris_source, france_source])"
proof -
  have n: "messages sample_state \<noteq> []" by (simp add: sample_state_def)
  have r: "role (last (messages sample_state)) = Assistant" by (simp add: sample_state_def)
  show ?thesis
    using sources_event_replaces
      [OF n r, of "[paris_source]" "[paris_source, france_source]"] n r
    by auto
qed


text \<open>
  C10. Applying any decoded event to a non-empty message list keeps the length of the
  list, every message but the last, and the role of the last; when the last message is
  not an assistant message the whole list is unchanged. The read loop as a whole keeps
  every message but the last.
\<close>

theorem event_changes_only_trailing_assistant:
  assumes "messages st \<noteq> []"
  shows "(\<exists>st'. handle_parsed parsed st = Inr st'
            \<and> length (messages st') = length (messages st)
            \<and> butlast (messages st') = butlast (messages st)
            \<and> role (last (messages st')) = role (last (messages st))
            \<and> (role (last (messages st)) \<noteq> Assistant \<longrightarrow> messages st' = messages st))
         \<and> (\<exists>st'. read_loop parse buffer chunks st = Inr st'
               \<and> butlast (messages st') = butlast (messages st))"
proof (intro conjI)
  from handle_parsed_frame [OF assms, of parsed] handle_parsed_last_only [OF assms, of parsed]
  show "\<exists>st'. handle_parsed parsed st = Inr st'
         \<and> length (messages st') = length (messages st)
         \<and> butlast (messages st') = butlast (messages st)
         \<and> role (last (messages st')) = role (last (messages st))
         \<and> (role (last (messages st)) \<noteq> Assistant \<longrightarrow> messages st' = messages st)"
    by auto
  from apply_events_frame [OF assms, of "stream_events parse buffer chunks"]
  show "\<exists>st'. read_loop parse buffer chunks st = Inr st'
          \<and> butlast (messages st') = butlast (messages st)"
    by (auto simp: read_loop_events)
qed

text \<open>
  An instance of C10: a text-delta event applied to a conversation that ends with a
  user message, and to one that ends with the assistant placeholder.
\<close>

theorem event_changes_only_trailing_assistant_witness:
  "messages user_only_state \<noteq> [] \<and> role (last (messages user_only_state)) \<noteq> Assistant
   \<and> (\<exists>st'. handle_parsed (wire (TextDelta ''s1'' ''Par'')) user_only_state = Inr st'
          \<and> messages st' = messages user_only_state)
   \<and> messages sample_state \<noteq> []
   \<and> (\<exists>st'. handle_parsed (wire (TextDelta ''s1'' ''Par'')) sample_state = Inr st'
          \<and> butlast (messages st') = butlast (messages sample_state))"
proof -
  have n: "messages user_only_state \<noteq> []"
    by (simp add: user_only_state_def initial_state_def)
  have r: "role (last (messages user_only_state)) \<noteq> Assistant"
    by (simp add: user_only_state_def initial_state_def)
  have m: "messages sample_state \<noteq> []" by (simp add: sample_state_def)
  have u: "\<exists>st'. handle_parsed (wire (TextDelta ''s1'' ''Par'')) user_only_state = Inr st'
          \<and> messages st' = messages user_only_state"
    using event_changes_only_trailing_assistant
      [OF n, of "wire (TextDelta ''s1'' ''Par'')" sample_parse "[]" "[]"] r
    by auto
  show ?thesis
    using event_changes_only_trailing_assistant
      [OF m, of "wire (TextDelta ''s1'' ''Par'')" sample_parse "[]" "[]"] n r m u
    by auto
qed

end
